theory Spec2Isabelle
  imports Main
begin

section \<open>The recipe canister: data model\<close>

text \<open>
  The source file \<^verbatim>\<open>src/index.ts\<close> holds two revisions of the same canister, one after
  the other. Revision A is lines 1 to 268 (owner ids are generated by the canister),
  revision B is lines 270 to 537 (the caller supplies a requester id). Functions of
  revision A carry the suffix \<open>_A\<close>, those of revision B the suffix \<open>_B\<close>.

  Strings are lists of \<open>char\<close>; a \<open>char\<close> stands for a UTF-16 code unit below 256
  (the Latin-1 range), which is all an 8-bit character can hold.
\<close>

text \<open>\<^verbatim>\<open>type Recipe\<close>. The field \<^verbatim>\<open>id\<close> is named \<open>idR\<close>: \<open>id\<close> is the identity of HOL.\<close>

record Recipe =
  idR :: string
  recipeName :: string
  ownerName :: string
  ownerId :: string
  description :: string
  recipeType :: string
  videoDemonstration :: string

text \<open>\<^verbatim>\<open>type RecipePayload\<close>; its fields carry the prefix \<open>p_\<close> to keep them apart from
  the fields of \<open>Recipe\<close>.\<close>

record RecipePayload =
  p_recipeName :: string
  p_recipeType :: string
  p_description :: string
  p_ownerName :: string
  p_videoDemonstration :: string

text \<open>
  The source returns \<^verbatim>\<open>Result<_, string>\<close> with a message; the model keeps the kind of
  the failure. The messages of each kind:
  \<^item> \<open>InvalidId\<close>: 'Invalid recipe ID', 'Invalid owner ID', 'Invalid recipe or owner ID for ...',
    'Invalid recipe ID for ...';
  \<^item> \<open>NotFound\<close>: 'Recipe with the provided id: ... has not been found!',
    'Failed to update recipe with id: ...!', 'Failed to delete recipe with id: ...';
  \<^item> \<open>EmptyResult\<close>: 'There are no recipes ...';
  \<^item> \<open>IncompleteInput\<close>: 'Incomplete input data!';
  \<^item> \<open>Unauthorized\<close>: 'Only the owner of the recipe can update this recipe!',
    'Only the owner can delete the recipe!', 'Unauthorized to access this recipe.';
  \<^item> \<open>InternalFailure\<close>: the messages of the \<^verbatim>\<open>catch\<close> branches ('Failed to get recipes', ...).
    Nothing in the modelled bodies throws, so no function of the model returns it.
\<close>

datatype error = InvalidId | NotFound | EmptyResult | IncompleteInput | Unauthorized | InternalFailure

section \<open>The store\<close>

text \<open>
  \<^verbatim>\<open>const recipeStorage = new StableBTreeMap<string, Recipe>(1, 44, 1024)\<close>: a map from
  key to record, here the list of its entries. \<open>storage_insert\<close> replaces the entry of a
  key that is present and \<open>storage_delete\<close> takes out every entry of a key, so a store
  built by the operations never holds a key twice.

  The model lists the entries in the order in which their keys came in, the B-tree lists
  them by key; no statement below depends on the order. The numbers 44 and 1024 bound the
  size of an encoded key and of an encoded value; the library enforces them, the code of
  the canister does not mention them again, and the model stores every record.
\<close>

type_synonym store = "(string \<times> Recipe) list"

fun storage_get :: "string \<Rightarrow> store \<Rightarrow> Recipe option" where
  "storage_get k [] = None"
| "storage_get k ((k', v) # s) = (if k' = k then Some v else storage_get k s)"

fun storage_insert :: "string \<Rightarrow> Recipe \<Rightarrow> store \<Rightarrow> store" where
  "storage_insert k v [] = [(k, v)]"
| "storage_insert k v ((k', v') # s) =
     (if k' = k then (k, v) # s else (k', v') # storage_insert k v s)"

fun storage_delete :: "string \<Rightarrow> store \<Rightarrow> store" where
  "storage_delete k [] = []"
| "storage_delete k ((k', v) # s) =
     (if k' = k then storage_delete k s else (k', v) # storage_delete k s)"

text \<open>\<^verbatim>\<open>remove(key)\<close> returns the removed value, if any, and takes the entry out.\<close>

definition storage_remove :: "string \<Rightarrow> store \<Rightarrow> Recipe option \<times> store" where
  "storage_remove k s = (storage_get k s, storage_delete k s)"

definition storage_values :: "store \<Rightarrow> Recipe list" where
  "storage_values s = map snd s"

section \<open>Strings of JavaScript\<close>




text \<open>
  The regular expressions of \<^verbatim>\<open>isValidUUID\<close> use character classes, literal characters,
  sequencing and counted repetition \<^verbatim>\<open>r{n}\<close> only, between \<^verbatim>\<open>^\<close> and \<^verbatim>\<open>$\<close>, with the
  flag \<^verbatim>\<open>i\<close>. Such an expression consumes a fixed number of characters, so matching
  returns the rest of the input or fails.
\<close>

datatype cls_item = Digit | Range char char

datatype regex = Eps | Class "cls_item list" | Lit char | Cat regex regex

text \<open>\<^verbatim>\<open>r{n}\<close> is \<open>r\<close> written \<open>n\<close> times.\<close>

primrec rep :: "nat \<Rightarrow> regex \<Rightarrow> regex" where
  "rep 0 r = Eps"
| "rep (Suc n) r = Cat r (rep n r)"

text \<open>
  Case-insensitive matching without the flag \<^verbatim>\<open>u\<close> compares the canonical forms of two
  code units: the upper-case form when that is a single code unit, unless it would map a
  non-ASCII code unit to an ASCII one. For code units below 256: a to z move down by 32,
  0xE0 to 0xFE (without the division sign 0xF7) move down by 32, the micro sign 0xB5
  goes to 0x39C, 0xFF goes to 0x178, and 0xDF (whose upper case is two letters) stays.
\<close>

definition canonicalize :: "char \<Rightarrow> nat" where
  "canonicalize c = (let n = (of_char c :: nat) in
     if 97 \<le> n \<and> n \<le> 122 then n - 32
     else if n = 181 then 924
     else if n = 255 then 376
     else if 224 \<le> n \<and> n \<le> 254 \<and> n \<noteq> 247 then n - 32
     else n)"

fun item_chars :: "cls_item \<Rightarrow> char list" where
  "item_chars Digit = ''0123456789''"
| "item_chars (Range lo hi) = map char_of [of_char lo ..< Suc (of_char hi)]"

definition char_eq :: "bool \<Rightarrow> char \<Rightarrow> char \<Rightarrow> bool" where
  "char_eq icase a c = (if icase then canonicalize a = canonicalize c else a = c)"

definition class_match :: "bool \<Rightarrow> cls_item list \<Rightarrow> char \<Rightarrow> bool" where
  "class_match icase items c = list_ex (\<lambda>a. char_eq icase a c) (concat (map item_chars items))"

fun re_match :: "bool \<Rightarrow> regex \<Rightarrow> string \<Rightarrow> string option" where
  "re_match icase Eps s = Some s"
| "re_match icase (Class items) [] = None"
| "re_match icase (Class items) (c # s) = (if class_match icase items c then Some s else None)"
| "re_match icase (Lit a) [] = None"
| "re_match icase (Lit a) (c # s) = (if char_eq icase a c then Some s else None)"
| "re_match icase (Cat r1 r2) s =
     (case re_match icase r1 s of None \<Rightarrow> None | Some rest \<Rightarrow> re_match icase r2 rest)"

text \<open>\<^verbatim>\<open>/^r$/.test(s)\<close>: the whole input is consumed.\<close>

definition regex_test :: "bool \<Rightarrow> regex \<Rightarrow> string \<Rightarrow> bool" where
  "regex_test icase r s = (re_match icase r s = Some [])"

section \<open>isValidUUID\<close>

text \<open>Revision A: \<^verbatim>\<open>/^[\da-f]{8}-([\da-f]{4}-){3}[\da-f]{12}$/i\<close>.\<close>

definition hex_A :: regex where
  "hex_A = Class [Digit, Range (CHR ''a'') (CHR ''f'')]"

definition uuid_regex_A :: regex where
  "uuid_regex_A =
     Cat (rep 8 hex_A)
    (Cat (Lit (CHR ''-''))
    (Cat (rep 3 (Cat (rep 4 hex_A) (Lit (CHR ''-''))))
         (rep 12 hex_A)))"

definition isValidUUID_A :: "string \<Rightarrow> bool" where
  "isValidUUID_A ident = regex_test True uuid_regex_A ident"

text \<open>Revision B:
  \<^verbatim>\<open>/^[a-fA-F0-9]{8}-[a-fA-F0-9]{4}-[a-fA-F0-9]{4}-[a-fA-F0-9]{4}-[a-fA-F0-9]{12}$/i\<close>.\<close>

definition hex_B :: regex where
  "hex_B = Class [Range (CHR ''a'') (CHR ''f''), Range (CHR ''A'') (CHR ''F''),
                  Range (CHR ''0'') (CHR ''9'')]"

definition uuid_regex_B :: regex where
  "uuid_regex_B =
     Cat (rep 8 hex_B)
    (Cat (Lit (CHR ''-''))
    (Cat (rep 4 hex_B)
    (Cat (Lit (CHR ''-''))
    (Cat (rep 4 hex_B)
    (Cat (Lit (CHR ''-''))
    (Cat (rep 4 hex_B)
    (Cat (Lit (CHR ''-''))
         (rep 12 hex_B))))))))"

definition isValidUUID_B :: "string \<Rightarrow> bool" where
  "isValidUUID_B ident = regex_test True uuid_regex_B ident"


section \<open>The operations\<close>

text \<open>
  Every operation takes the store; the three updates return the new store beside their
  result. A string is falsy in JavaScript exactly when it is empty, so \<^verbatim>\<open>!payload.f\<close>
  is \<open>f = []\<close> and \<^verbatim>\<open>a || b\<close> on strings is \<open>or_else a b\<close>.
\<close>

definition or_else :: "string \<Rightarrow> string \<Rightarrow> string" where
  "or_else a b = (if a \<noteq> [] then a else b)"

subsection \<open>Revision A\<close>

definition getAllRecipes_A :: "store \<Rightarrow> error + Recipe list" where
  "getAllRecipes_A s =
     (if length (storage_values s) = 0 then Inl EmptyResult
      else Inr (storage_values s))"

definition getRecipeById_A :: "string \<Rightarrow> store \<Rightarrow> error + Recipe" where
  "getRecipeById_A recipeId s =
     (if \<not> isValidUUID_A recipeId then Inl InvalidId
      else case storage_get recipeId s of
             Some recipe \<Rightarrow> Inr recipe
           | None \<Rightarrow> Inl NotFound)"


definition getOwnersRecipesById_A :: "string \<Rightarrow> store \<Rightarrow> error + Recipe list" where
  "getOwnersRecipesById_A owner s =
     (if \<not> isValidUUID_A owner then Inl InvalidId
      else let result = filter (\<lambda>recipe. ownerId recipe = owner) (storage_values s)
           in if length result = 0 then Inl EmptyResult else Inr result)"

definition getRecipesByOwnersName_A :: "string \<Rightarrow> store \<Rightarrow> error + Recipe list" where
  "getRecipesByOwnersName_A name s =
     (let result = filter (\<lambda>recipe. ownerName recipe = name) (storage_values s)
      in if length result = 0 then Inl EmptyResult else Inr result)"


text \<open>
  \<^verbatim>\<open>createRecipe\<close> calls \<^verbatim>\<open>uuidv4()\<close> twice, first for the recipe id, then for the owner
  id. The generator is not part of the canister; its two results are the parameters
  \<open>uuid1\<close> and \<open>uuid2\<close>.
\<close>

definition createRecipe_A ::
  "string \<Rightarrow> string \<Rightarrow> RecipePayload \<Rightarrow> store \<Rightarrow> (error + Recipe) \<times> store" where
  "createRecipe_A uuid1 uuid2 payload s =
     (if p_recipeType payload = [] \<or> p_description payload = [] \<or> p_ownerName payload = []
         \<or> p_videoDemonstration payload = [] \<or> p_recipeName payload = []
      then (Inl IncompleteInput, s)
      else let recipeId = uuid1;
               newRecipe = \<lparr> idR = recipeId,
                             recipeName = p_recipeName payload,
                             ownerName = p_ownerName payload,
                             ownerId = uuid2,
                             description = p_description payload,
                             recipeType = p_recipeType payload,
                             videoDemonstration = p_videoDemonstration payload \<rparr>
           in (Inr newRecipe, storage_insert (idR newRecipe) newRecipe s))"

definition updateRecipe_A ::
  "string \<Rightarrow> string \<Rightarrow> RecipePayload \<Rightarrow> store \<Rightarrow> (error + Recipe) \<times> store" where
  "updateRecipe_A recipeId owner payload s =
     (if \<not> isValidUUID_A recipeId \<or> \<not> isValidUUID_A owner then (Inl InvalidId, s)
      else case storage_get recipeId s of
             Some recipe \<Rightarrow>
               if ownerId recipe \<noteq> owner then (Inl Unauthorized, s)
               else let updatedRecipe =
                          \<lparr> idR = idR recipe,
                            recipeName = or_else (p_recipeName payload) (recipeName recipe),
                            ownerName = or_else (p_ownerName payload) (ownerName recipe),
                            ownerId = ownerId recipe,
                            description = or_else (p_description payload) (description recipe),
                            recipeType = or_else (p_recipeType payload) (recipeType recipe),
                            videoDemonstration =
                              or_else (p_videoDemonstration payload) (videoDemonstration recipe) \<rparr>
                    in (Inr updatedRecipe, storage_insert (idR recipe) updatedRecipe s)
           | None \<Rightarrow> (Inl NotFound, s))"

text \<open>Revision A removes the entry first and compares the owner afterwards.\<close>

definition deleteRecipe_A :: "string \<Rightarrow> string \<Rightarrow> store \<Rightarrow> (error + Recipe) \<times> store" where
  "deleteRecipe_A recipeId owner s =
     (if \<not> isValidUUID_A recipeId \<or> \<not> isValidUUID_A owner then (Inl InvalidId, s)
      else case storage_remove recipeId s of
             (Some recipe, s') \<Rightarrow>
               if ownerId recipe \<noteq> owner then (Inl Unauthorized, s')
               else (Inr recipe, s')
           | (None, s') \<Rightarrow> (Inl NotFound, s'))"

subsection \<open>Revision B\<close>

definition getAllRecipes_B :: "store \<Rightarrow> error + Recipe list" where
  "getAllRecipes_B s =
     (if length (storage_values s) = 0 then Inl EmptyResult
      else Inr (storage_values s))"

definition getRecipeById_B :: "string \<Rightarrow> string \<Rightarrow> store \<Rightarrow> error + Recipe" where
  "getRecipeById_B recipeId requesterId s =
     (if \<not> isValidUUID_B recipeId then Inl InvalidId
      else case storage_get recipeId s of
             Some recipe \<Rightarrow>
               if ownerId recipe \<noteq> requesterId then Inl Unauthorized
               else Inr recipe
           | None \<Rightarrow> Inl NotFound)"


text \<open>The parameter \<^verbatim>\<open>requesterId\<close> of the next two functions is not used by their bodies.\<close>

definition getOwnersRecipesById_B :: "string \<Rightarrow> string \<Rightarrow> store \<Rightarrow> error + Recipe list" where
  "getOwnersRecipesById_B owner requesterId s =
     (if \<not> isValidUUID_B owner then Inl InvalidId
      else let result = filter (\<lambda>recipe. ownerId recipe = owner) (storage_values s)
           in if length result = 0 then Inl EmptyResult else Inr result)"

definition getRecipesByOwnersName_B :: "string \<Rightarrow> string \<Rightarrow> store \<Rightarrow> error + Recipe list" where
  "getRecipesByOwnersName_B name requesterId s =
     (let result = filter (\<lambda>recipe. ownerName recipe = name) (storage_values s)
      in if length result = 0 then Inl EmptyResult else Inr result)"


text \<open>
  \<^verbatim>\<open>createRecipe\<close> calls \<^verbatim>\<open>uuidv4()\<close> once, for the recipe id; its result is the
  parameter \<open>uuid1\<close>. The owner id is the requester's id.
\<close>

definition createRecipe_B ::
  "string \<Rightarrow> string \<Rightarrow> RecipePayload \<Rightarrow> store \<Rightarrow> (error + Recipe) \<times> store" where
  "createRecipe_B uuid1 requesterId payload s =
     (if p_recipeType payload = [] \<or> p_description payload = [] \<or> p_ownerName payload = []
         \<or> p_videoDemonstration payload = [] \<or> p_recipeName payload = []
      then (Inl IncompleteInput, s)
      else let recipeId = uuid1;
               newRecipe = \<lparr> idR = recipeId,
                             recipeName = p_recipeName payload,
                             ownerName = p_ownerName payload,
                             ownerId = requesterId,
                             description = p_description payload,
                             recipeType = p_recipeType payload,
                             videoDemonstration = p_videoDemonstration payload \<rparr>
           in (Inr newRecipe, storage_insert (idR newRecipe) newRecipe s))"

definition updateRecipe_B ::
  "string \<Rightarrow> string \<Rightarrow> RecipePayload \<Rightarrow> store \<Rightarrow> (error + Recipe) \<times> store" where
  "updateRecipe_B recipeId requesterId payload s =
     (if \<not> isValidUUID_B recipeId then (Inl InvalidId, s)
      else case storage_get recipeId s of
             Some recipe \<Rightarrow>
               if ownerId recipe \<noteq> requesterId then (Inl Unauthorized, s)
               else let updatedRecipe =
                          \<lparr> idR = idR recipe,
                            recipeName = or_else (p_recipeName payload) (recipeName recipe),
                            ownerName = or_else (p_ownerName payload) (ownerName recipe),
                            ownerId = ownerId recipe,
                            description = or_else (p_description payload) (description recipe),
                            recipeType = or_else (p_recipeType payload) (recipeType recipe),
                            videoDemonstration =
                              or_else (p_videoDemonstration payload) (videoDemonstration recipe) \<rparr>
                    in (Inr updatedRecipe, storage_insert (idR recipe) updatedRecipe s)
           | None \<Rightarrow> (Inl NotFound, s))"

text \<open>Revision B looks the entry up, compares the owner, and removes the entry afterwards.\<close>

definition deleteRecipe_B :: "string \<Rightarrow> string \<Rightarrow> store \<Rightarrow> (error + Recipe) \<times> store" where
  "deleteRecipe_B recipeId requesterId s =
     (if \<not> isValidUUID_B recipeId then (Inl InvalidId, s)
      else case storage_get recipeId s of
             Some recipe \<Rightarrow>
               if ownerId recipe \<noteq> requesterId then (Inl Unauthorized, s)
               else (Inr recipe, snd (storage_remove recipeId s))
           | None \<Rightarrow> (Inl NotFound, s))"

section \<open>Notions of the specification\<close>

text \<open>A hexadecimal digit, in either case.\<close>

definition is_hex_digit :: "char \<Rightarrow> bool" where
  "is_hex_digit c = (c \<in> set ''0123456789abcdefABCDEF'')"

text \<open>
  The shape of the specification: eight hex digits, dash, three groups of four hex digits
  each followed by a dash, twelve hex digits.
\<close>

definition uuid_shape :: "string \<Rightarrow> bool" where
  "uuid_shape s = (\<exists>a b c d e.
     s = a @ ''-'' @ b @ ''-'' @ c @ ''-'' @ d @ ''-'' @ e
     \<and> length a = 8 \<and> length b = 4 \<and> length c = 4 \<and> length d = 4 \<and> length e = 12
     \<and> list_all is_hex_digit a \<and> list_all is_hex_digit b \<and> list_all is_hex_digit c
     \<and> list_all is_hex_digit d \<and> list_all is_hex_digit e)"




text \<open>
  The invariant of the store: no key occurs twice, every record is stored under its own
  id, and every key has the format that \<^verbatim>\<open>uuidv4()\<close> produces.
\<close>

definition wf_store :: "store \<Rightarrow> bool" where
  "wf_store s = (distinct (map fst s)
     \<and> list_all (\<lambda>e. idR (snd e) = fst e \<and> isValidUUID_A (fst e)) s)"

text \<open>
  In revision A the owner ids are generated by \<^verbatim>\<open>uuidv4()\<close> as well, so every stored owner
  id has that format.
\<close>

definition owner_ids_valid :: "store \<Rightarrow> bool" where
  "owner_ids_valid s = list_all (\<lambda>e. isValidUUID_A (ownerId (snd e))) s"

text \<open>The payload that \<^verbatim>\<open>createRecipe\<close> accepts: no field is empty.\<close>

definition complete :: "RecipePayload \<Rightarrow> bool" where
  "complete payload = (p_recipeName payload \<noteq> [] \<and> p_recipeType payload \<noteq> []
     \<and> p_description payload \<noteq> [] \<and> p_ownerName payload \<noteq> []
     \<and> p_videoDemonstration payload \<noteq> [])"

text \<open>The record that a successful \<^verbatim>\<open>updateRecipe\<close> is specified to produce.\<close>

definition overwrite :: "RecipePayload \<Rightarrow> Recipe \<Rightarrow> Recipe" where
  "overwrite payload r = r\<lparr>
     recipeName := (if p_recipeName payload = [] then recipeName r else p_recipeName payload),
     recipeType := (if p_recipeType payload = [] then recipeType r else p_recipeType payload),
     description := (if p_description payload = [] then description r else p_description payload),
     ownerName := (if p_ownerName payload = [] then ownerName r else p_ownerName payload),
     videoDemonstration := (if p_videoDemonstration payload = [] then videoDemonstration r
                            else p_videoDemonstration payload) \<rparr>"

section \<open>Sample data\<close>

text \<open>Concrete identifiers, a payload and a store, used where a statement is run on an input.\<close>

definition recipe_id_1 :: string where
  "recipe_id_1 = ''123e4567-e89b-12d3-a456-426614174000''"

definition owner_id_1 :: string where
  "owner_id_1 = ''9b2c1f0e-5a4d-4c3b-8a29-1e0f9d8c7b6a''"

definition owner_id_2 :: string where
  "owner_id_2 = ''0f1e2d3c-4b5a-4697-a8b9-cadbecfd0e1f''"

definition nil_uuid :: string where
  "nil_uuid = ''00000000-0000-0000-0000-000000000000''"

definition banitsa :: RecipePayload where
  "banitsa = \<lparr> p_recipeName = ''Banitsa'', p_recipeType = ''Bulgarian'',
               p_description = ''Filo pastry with eggs and cheese'', p_ownerName = ''Maria'',
               p_videoDemonstration = ''https://example.org/banitsa'' \<rparr>"

definition new_description :: RecipePayload where
  "new_description = \<lparr> p_recipeName = [], p_recipeType = [],
               p_description = ''Filo pastry, eggs, white cheese, yoghurt'', p_ownerName = [],
               p_videoDemonstration = [] \<rparr>"

definition empty_payload :: RecipePayload where
  "empty_payload = \<lparr> p_recipeName = [], p_recipeType = [], p_description = [],
                     p_ownerName = [], p_videoDemonstration = [] \<rparr>"

definition recipe_1 :: Recipe where
  "recipe_1 = \<lparr> idR = recipe_id_1, recipeName = ''Banitsa'', ownerName = ''Maria'',
                ownerId = owner_id_1, description = ''Filo pastry with eggs and cheese'',
                recipeType = ''Bulgarian'',
                videoDemonstration = ''https://example.org/banitsa'' \<rparr>"

definition store_1 :: store where
  "store_1 = [(recipe_id_1, recipe_1)]"

section \<open>The regular expressions of isValidUUID\<close>

text \<open>
  The members of the three ranges, and what it means for a code unit to have the
  canonical form of an ASCII digit, capital or small letter: no code unit above 127 has
  the canonical form of an ASCII one.
\<close>

lemma item_a_f: "item_chars (Range (CHR ''a'') (CHR ''f'')) = ''abcdef''"
  by code_simp

lemma item_A_F: "item_chars (Range (CHR ''A'') (CHR ''F'')) = ''ABCDEF''"
  by code_simp

lemma item_0_9: "item_chars (Range (CHR ''0'') (CHR ''9'')) = ''0123456789''"
  by code_simp

lemma of_char_lt: "(of_char c :: nat) < 256"
  by (metis of_char_mod_256 mod_less_divisor zero_less_numeral)

lemma canon_ascii:
  assumes "of_char a = (m::nat)" "of_char c = (n::nat)" "m < 97"
  shows "canonicalize a = canonicalize c \<longleftrightarrow> n = m \<or> n = m + 32 \<and> 65 \<le> m \<and> m \<le> 90"
proof -
  have "n < 256" using of_char_lt[of c] assms by simp
  then show ?thesis using assms(3) unfolding canonicalize_def Let_def assms(1) assms(2)
    by auto
qed

lemma canon_lower:
  assumes "of_char a = (m::nat)" "of_char c = (n::nat)" "97 \<le> m" "m \<le> 122"
  shows "canonicalize a = canonicalize c \<longleftrightarrow> n = m \<or> n + 32 = m"
proof -
  have "n < 256" using of_char_lt[of c] assms by simp
  then show ?thesis using assms(3,4) unfolding canonicalize_def Let_def assms(1) assms(2)
    by auto
qed

lemma nat_char_iff: "n < 256 \<Longrightarrow> ((of_char c :: nat) = n) \<longleftrightarrow> (c = char_of n)"
  by auto

lemma canon_digit:
  assumes "(of_char a :: nat) < 65"
  shows "canonicalize a = canonicalize c \<longleftrightarrow> c = a"
  using canon_ascii[OF refl refl, of a c] assms by auto

lemma canon_up:
  assumes "65 \<le> (of_char a :: nat)" "(of_char a :: nat) \<le> 90"
  shows "canonicalize a = canonicalize c \<longleftrightarrow> c = a \<or> c = char_of ((of_char a :: nat) + 32)"
  using canon_ascii[OF refl refl, of a c] assms by (auto simp: nat_char_iff)

lemma canon_low:
  assumes "97 \<le> (of_char a :: nat)" "(of_char a :: nat) \<le> 122"
  shows "canonicalize a = canonicalize c \<longleftrightarrow> c = a \<or> c = char_of ((of_char a :: nat) - 32)"
proof -
  have "(of_char c :: nat) + 32 = of_char a \<longleftrightarrow> (of_char c :: nat) = of_char a - 32"
    using assms by auto
  also have "\<dots> \<longleftrightarrow> c = char_of ((of_char a :: nat) - 32)"
    using assms by (intro nat_char_iff) auto
  finally show ?thesis using canon_lower[OF refl refl assms, of c] by auto
qed

lemma char_of_hex:
  "char_of (97::nat) = CHR ''a''" "char_of (98::nat) = CHR ''b''" "char_of (99::nat) = CHR ''c''"
  "char_of (100::nat) = CHR ''d''" "char_of (101::nat) = CHR ''e''" "char_of (102::nat) = CHR ''f''"
  "char_of (65::nat) = CHR ''A''" "char_of (66::nat) = CHR ''B''" "char_of (67::nat) = CHR ''C''"
  "char_of (68::nat) = CHR ''D''" "char_of (69::nat) = CHR ''E''" "char_of (70::nat) = CHR ''F''"
  by code_simp+

text \<open>
  Under the flag \<^verbatim>\<open>i\<close> both classes, \<^verbatim>\<open>[\da-f]\<close> and \<^verbatim>\<open>[a-fA-F0-9]\<close>, match exactly the
  hex digits of either case, and the literal dash matches the dash only.
\<close>

lemma hex_A_class: "class_match True [Digit, Range (CHR ''a'') (CHR ''f'')] c = is_hex_digit c"
  unfolding class_match_def char_eq_def is_hex_digit_def
  by (simp add: item_a_f canon_digit canon_low char_of_hex del: item_chars.simps(2)) auto

lemma hex_B_class: "class_match True [Range (CHR ''a'') (CHR ''f''), Range (CHR ''A'') (CHR ''F''),
                  Range (CHR ''0'') (CHR ''9'')] c = is_hex_digit c"
  unfolding class_match_def char_eq_def is_hex_digit_def
  by (simp add: item_a_f item_A_F item_0_9 canon_digit canon_low canon_up char_of_hex del: item_chars.simps(2)) auto

lemma dash_eq: "char_eq True (CHR ''-'') c \<longleftrightarrow> c = CHR ''-''"
  unfolding char_eq_def by (simp add: canon_digit)

text \<open>
  What the matcher consumes: \<open>rep n\<close> of a hex class takes \<open>n\<close> hex digits off the front
  of the input. Both expressions of \<^verbatim>\<open>isValidUUID\<close> then accept the shape of the
  specification and nothing else.
\<close>

lemma re_match_Cat:
  "re_match ic (Cat r1 r2) s = Some rest \<longleftrightarrow>
     (\<exists>mid. re_match ic r1 s = Some mid \<and> re_match ic r2 mid = Some rest)"
  by (simp split: option.splits)

lemma re_match_dash: "re_match True (Lit (CHR ''-'')) s = Some rest \<longleftrightarrow> s = CHR ''-'' # rest"
  by (cases s) (simp_all add: dash_eq)

lemma re_match_rep_hex_A:
  "re_match True (rep n hex_A) s = Some rest \<longleftrightarrow>
     (\<exists>a. s = a @ rest \<and> length a = n \<and> list_all is_hex_digit a)"
proof (induction n arbitrary: s)
  case 0
  then show ?case by auto
next
  case (Suc n)
  show ?case
  proof (cases s)
    case Nil
    then show ?thesis by (simp add: hex_A_def)
  next
    case (Cons c cs)
    have "re_match True (rep (Suc n) hex_A) s = Some rest \<longleftrightarrow>
          is_hex_digit c \<and> re_match True (rep n hex_A) cs = Some rest"
      using Cons by (simp add: hex_A_def hex_A_class del: class_match_def)
    also have "\<dots> \<longleftrightarrow> is_hex_digit c \<and> (\<exists>a. cs = a @ rest \<and> length a = n \<and> list_all is_hex_digit a)"
      using Suc.IH by simp
    also have "\<dots> \<longleftrightarrow> (\<exists>a. s = a @ rest \<and> length a = Suc n \<and> list_all is_hex_digit a)"
      using Cons by (auto simp: length_Suc_conv Cons_eq_append_conv)
    finally show ?thesis .
  qed
qed

lemma re_match_group_A:
  "re_match True (Cat (rep 4 hex_A) (Lit (CHR ''-''))) s = Some rest \<longleftrightarrow>
     (\<exists>b. s = b @ ''-'' @ rest \<and> length b = 4 \<and> list_all is_hex_digit b)"
  unfolding re_match_Cat re_match_dash re_match_rep_hex_A by auto

lemma rep_3: "rep 3 r = Cat r (Cat r (Cat r Eps))"
  by (simp add: numeral_3_eq_3)

lemma re_match_Eps: "re_match ic Eps s = Some rest \<longleftrightarrow> s = rest"
  by simp

lemma re_match_groups_A:
  "re_match True (rep 3 (Cat (rep 4 hex_A) (Lit (CHR ''-'')))) s = Some rest \<longleftrightarrow>
     (\<exists>b c d. s = b @ ''-'' @ c @ ''-'' @ d @ ''-'' @ rest
        \<and> length b = 4 \<and> length c = 4 \<and> length d = 4
        \<and> list_all is_hex_digit b \<and> list_all is_hex_digit c \<and> list_all is_hex_digit d)"
  unfolding rep_3 re_match_Cat[of _ "Cat _ _"] re_match_group_A re_match_Eps by auto

lemma isValidUUID_A_shape: "isValidUUID_A s = uuid_shape s"
  unfolding isValidUUID_A_def regex_test_def uuid_regex_A_def uuid_shape_def
    re_match_Cat[of _ "rep _ _"] re_match_Cat[of _ "Lit _"]
    re_match_groups_A re_match_dash re_match_rep_hex_A
  apply (rule iffI)
  subgoal by (elim exE conjE, simp) ((rule exI conjI refl | assumption)+)
  subgoal by (elim exE conjE, simp) ((rule exI conjI refl | assumption)+)
  done

lemma re_match_rep_hex_B:
  "re_match True (rep n hex_B) s = Some rest \<longleftrightarrow>
     (\<exists>a. s = a @ rest \<and> length a = n \<and> list_all is_hex_digit a)"
proof (induction n arbitrary: s)
  case 0
  then show ?case by auto
next
  case (Suc n)
  show ?case
  proof (cases s)
    case Nil
    then show ?thesis by (simp add: hex_B_def)
  next
    case (Cons c cs)
    have "re_match True (rep (Suc n) hex_B) s = Some rest \<longleftrightarrow>
          is_hex_digit c \<and> re_match True (rep n hex_B) cs = Some rest"
      using Cons by (simp add: hex_B_def hex_B_class del: class_match_def)
    also have "\<dots> \<longleftrightarrow> is_hex_digit c \<and> (\<exists>a. cs = a @ rest \<and> length a = n \<and> list_all is_hex_digit a)"
      using Suc.IH by simp
    also have "\<dots> \<longleftrightarrow> (\<exists>a. s = a @ rest \<and> length a = Suc n \<and> list_all is_hex_digit a)"
      using Cons by (auto simp: length_Suc_conv Cons_eq_append_conv)
    finally show ?thesis .
  qed
qed

lemma isValidUUID_B_shape: "isValidUUID_B s = uuid_shape s"
  unfolding isValidUUID_B_def regex_test_def uuid_regex_B_def uuid_shape_def
    re_match_Cat re_match_dash re_match_rep_hex_B
  apply (rule iffI)
  subgoal by (elim exE conjE, simp) ((rule exI conjI refl | assumption)+)
  subgoal by (elim exE conjE, simp) ((rule exI conjI refl | assumption)+)
  done

section \<open>The store and the update step\<close>

text \<open>
  The store behaves as a map: reading after writing, writing what is there, deleting. The
  keys stay distinct.
\<close>

lemma get_insert_same: "storage_get k (storage_insert k v s) = Some v"
  by (induction s) auto

lemma get_insert_other: "k' \<noteq> k \<Longrightarrow> storage_get k' (storage_insert k v s) = storage_get k' s"
  by (induction s) auto

lemma insert_triv: "storage_get k s = Some v \<Longrightarrow> storage_insert k v s = s"
  by (induction s) (auto split: if_splits)

lemma insert_idem: "storage_insert k v (storage_insert k v s) = storage_insert k v s"
  by (induction s) auto

lemma get_delete: "storage_get k (storage_delete k' s) = (if k = k' then None else storage_get k s)"
  by (induction s) auto

lemma keys_insert:
  "map fst (storage_insert k v s) = (if k \<in> set (map fst s) then map fst s else map fst s @ [k])"
  by (induction s) (auto simp: image_iff, force)

lemma distinct_insert: "distinct (map fst s) \<Longrightarrow> distinct (map fst (storage_insert k v s))"
  by (simp add: keys_insert)

lemma keys_delete: "map fst (storage_delete k s) = filter (\<lambda>x. x \<noteq> k) (map fst s)"
  by (induction s) auto

lemma distinct_delete: "distinct (map fst s) \<Longrightarrow> distinct (map fst (storage_delete k s))"
  by (simp add: keys_delete)

lemma get_map_of: "storage_get k s = map_of s k"
  by (induction s) auto

lemma get_None_iff: "storage_get k s = None \<longleftrightarrow> k \<notin> set (map fst s)"
  by (simp add: get_map_of map_of_eq_None_iff)

lemma get_Some_mem: "storage_get k s = Some v \<Longrightarrow> (k, v) \<in> set s"
  by (simp add: get_map_of map_of_SomeD)

lemma mem_get_Some: "distinct (map fst s) \<Longrightarrow> (k, v) \<in> set s \<Longrightarrow> storage_get k s = Some v"
  by (simp add: get_map_of)

lemma values_set:
  assumes "distinct (map fst s)"
  shows "set (storage_values s) = {r. \<exists>k. storage_get k s = Some r}"
proof (rule set_eqI)
  fix r
  have "r \<in> set (storage_values s) \<longleftrightarrow> (\<exists>k. (k, r) \<in> set s)"
    unfolding storage_values_def by force
  also have "\<dots> \<longleftrightarrow> (\<exists>k. storage_get k s = Some r)"
    using assms by (auto dest: get_Some_mem mem_get_Some)
  finally show "r \<in> set (storage_values s) \<longleftrightarrow> r \<in> {r. \<exists>k. storage_get k s = Some r}"
    by simp
qed


lemma insert_all:
  "list_all P s \<Longrightarrow> P (k, v) \<Longrightarrow> list_all P (storage_insert k v s)"
  by (induction s) auto

lemma delete_all: "list_all P s \<Longrightarrow> list_all P (storage_delete k s)"
  by (induction s) auto

lemma isValidUUID_B_A: "isValidUUID_B s = isValidUUID_A s"
  by (simp add: isValidUUID_A_shape isValidUUID_B_shape)

text \<open>
  The invariant holds of the empty store and every operation of both revisions keeps
  it, provided the generated ids have the format of \<^verbatim>\<open>uuidv4()\<close>.
\<close>

lemma wf_store_get:
  assumes "wf_store s" "storage_get k s = Some r"
  shows "idR r = k" "isValidUUID_A k" "isValidUUID_B k"
proof -
  have "(k, r) \<in> set s" using assms(2) by (rule get_Some_mem)
  then show "idR r = k" "isValidUUID_A k"
    using assms(1) unfolding wf_store_def list_all_iff by auto
  then show "isValidUUID_B k" by (simp add: isValidUUID_B_A)
qed

lemma wf_store_empty: "wf_store []"
  by (simp add: wf_store_def)

lemma wf_store_insert:
  "wf_store s \<Longrightarrow> idR v = k \<Longrightarrow> isValidUUID_A k \<Longrightarrow> wf_store (storage_insert k v s)"
  unfolding wf_store_def by (simp add: distinct_insert insert_all)

lemma wf_store_delete: "wf_store s \<Longrightarrow> wf_store (storage_delete k s)"
  unfolding wf_store_def by (simp add: distinct_delete delete_all)

text \<open>
  The record built by \<^verbatim>\<open>updateRecipe\<close> is \<open>overwrite payload recipe\<close>; the two
  definitions of \<^verbatim>\<open>updateRecipe\<close> with that record written in.
\<close>

lemma or_else_overwrite:
  "\<lparr> idR = idR r,
     recipeName = or_else (p_recipeName p) (recipeName r),
     ownerName = or_else (p_ownerName p) (ownerName r),
     ownerId = ownerId r,
     description = or_else (p_description p) (description r),
     recipeType = or_else (p_recipeType p) (recipeType r),
     videoDemonstration = or_else (p_videoDemonstration p) (videoDemonstration r) \<rparr>
   = overwrite p r"
  by (simp add: overwrite_def or_else_def)

lemma overwrite_idem: "overwrite p (overwrite p r) = overwrite p r"
  by (simp add: overwrite_def)

lemma overwrite_ids: "idR (overwrite p r) = idR r" "ownerId (overwrite p r) = ownerId r"
  by (simp_all add: overwrite_def)

lemma updateRecipe_A_unfold:
  "updateRecipe_A rid who p s =
     (if \<not> isValidUUID_A rid \<or> \<not> isValidUUID_A who then (Inl InvalidId, s)
      else case storage_get rid s of
             None \<Rightarrow> (Inl NotFound, s)
           | Some r \<Rightarrow> if ownerId r \<noteq> who then (Inl Unauthorized, s)
                       else (Inr (overwrite p r), storage_insert (idR r) (overwrite p r) s))"
  unfolding updateRecipe_A_def Let_def or_else_overwrite by (simp split: option.splits)

lemma updateRecipe_B_unfold:
  "updateRecipe_B rid who p s =
     (if \<not> isValidUUID_B rid then (Inl InvalidId, s)
      else case storage_get rid s of
             None \<Rightarrow> (Inl NotFound, s)
           | Some r \<Rightarrow> if ownerId r \<noteq> who then (Inl Unauthorized, s)
                       else (Inr (overwrite p r), storage_insert (idR r) (overwrite p r) s))"
  unfolding updateRecipe_B_def Let_def or_else_overwrite by (simp split: option.splits)

lemma wf_store_createRecipe:
  assumes "wf_store s" "isValidUUID_A uuid1"
  shows "wf_store (snd (createRecipe_A uuid1 uuid2 payload s))"
    "wf_store (snd (createRecipe_B uuid1 requesterId payload s))"
  using assms by (simp_all add: createRecipe_A_def createRecipe_B_def Let_def wf_store_insert)

lemma wf_store_updateRecipe:
  assumes "wf_store s"
  shows "wf_store (snd (updateRecipe_A rid who p s))" "wf_store (snd (updateRecipe_B rid who p s))"
  using assms wf_store_get[OF assms]
  by (auto simp: updateRecipe_A_unfold updateRecipe_B_unfold overwrite_ids
      intro!: wf_store_insert split: option.splits)

lemma wf_store_deleteRecipe:
  assumes "wf_store s"
  shows "wf_store (snd (deleteRecipe_A rid who s))" "wf_store (snd (deleteRecipe_B rid who s))"
  using assms
  by (auto simp: deleteRecipe_A_def deleteRecipe_B_def storage_remove_def wf_store_delete
      split: option.splits)

lemma owner_ids_valid_get:
  assumes "owner_ids_valid s" "storage_get k s = Some r"
  shows "isValidUUID_A (ownerId r)"
  using get_Some_mem[OF assms(2)] assms(1) unfolding owner_ids_valid_def list_all_iff by auto

lemma owner_ids_valid_revision_A:
  assumes "owner_ids_valid s"
  shows "isValidUUID_A uuid2 \<Longrightarrow> owner_ids_valid (snd (createRecipe_A uuid1 uuid2 payload s))"
    and "owner_ids_valid (snd (updateRecipe_A rid who p s))"
    and "owner_ids_valid (snd (deleteRecipe_A rid who s))"
proof -
  show "isValidUUID_A uuid2 \<Longrightarrow> owner_ids_valid (snd (createRecipe_A uuid1 uuid2 payload s))"
    using assms unfolding owner_ids_valid_def
    by (simp add: createRecipe_A_def Let_def insert_all)
  show "owner_ids_valid (snd (updateRecipe_A rid who p s))"
    using assms owner_ids_valid_get[OF assms] unfolding owner_ids_valid_def
    by (auto simp: updateRecipe_A_unfold overwrite_ids intro!: insert_all split: option.splits)
  show "owner_ids_valid (snd (deleteRecipe_A rid who s))"
    using assms unfolding owner_ids_valid_def
    by (auto simp: deleteRecipe_A_def storage_remove_def delete_all split: option.splits)
qed

lemma update_step_idem:
  assumes "storage_get rid s = Some r"
  shows "\<exists>r'. storage_get rid (storage_insert (idR r) (overwrite p r) s) = Some r'
           \<and> ownerId r' = ownerId r \<and> overwrite p r' = overwrite p r \<and> idR r' = idR r"
proof (cases "idR r = rid")
  case True
  then show ?thesis by (simp add: get_insert_same overwrite_idem overwrite_ids)
next
  case False
  then show ?thesis using assms by (simp add: get_insert_other)
qed

section \<open>The format of identifiers and the case of letters\<close>

lemma list_all_update: "list_all P xs \<Longrightarrow> P x \<Longrightarrow> list_all P (xs[i := x])"
  unfolding list_all_iff using set_update_subset_insert[of xs i x] by auto

lemma update_after_prefix:
  assumes "length pre = n" "c \<noteq> []"
  shows "(pre @ c @ rest)[n := x] = pre @ c[0 := x] @ rest"
  using assms by (cases c) (simp_all add: list_update_append)

lemma uuid_shape_update:
  assumes "uuid_shape s" "is_hex_digit x"
  shows "uuid_shape (s[14 := x])" "uuid_shape (s[19 := x])"
proof -
  from assms(1) obtain a b c d e where
    s: "s = a @ ''-'' @ b @ ''-'' @ c @ ''-'' @ d @ ''-'' @ e" and
    len: "length a = 8" "length b = 4" "length c = 4" "length d = 4" "length e = 12" and
    hex: "list_all is_hex_digit a" "list_all is_hex_digit b" "list_all is_hex_digit c"
         "list_all is_hex_digit d" "list_all is_hex_digit e"
    unfolding uuid_shape_def by blast
  have ne: "c \<noteq> []" "d \<noteq> []" using len by auto
  have "s = (a @ ''-'' @ b @ ''-'') @ c @ (''-'' @ d @ ''-'' @ e)" using s by simp
  moreover have "length (a @ ''-'' @ b @ ''-'') = 14" using len by simp
  ultimately have "s[14 := x] = (a @ ''-'' @ b @ ''-'') @ c[0 := x] @ (''-'' @ d @ ''-'' @ e)"
    using update_after_prefix[OF _ ne(1)] by metis
  then have "s[14 := x] = a @ ''-'' @ b @ ''-'' @ c[0 := x] @ ''-'' @ d @ ''-'' @ e" by simp
  moreover have "length (c[0 := x]) = 4" "list_all is_hex_digit (c[0 := x])"
    using len hex assms(2) by (simp_all add: list_all_update)
  ultimately show "uuid_shape (s[14 := x])"
    unfolding uuid_shape_def using len hex by blast
  have "s = (a @ ''-'' @ b @ ''-'' @ c @ ''-'') @ d @ (''-'' @ e)" using s by simp
  moreover have "length (a @ ''-'' @ b @ ''-'' @ c @ ''-'') = 19" using len by simp
  ultimately have "s[19 := x] = (a @ ''-'' @ b @ ''-'' @ c @ ''-'') @ d[0 := x] @ (''-'' @ e)"
    using update_after_prefix[OF _ ne(2)] by metis
  then have "s[19 := x] = a @ ''-'' @ b @ ''-'' @ c @ ''-'' @ d[0 := x] @ ''-'' @ e" by simp
  moreover have "length (d[0 := x]) = 4" "list_all is_hex_digit (d[0 := x])"
    using len hex assms(2) by (simp_all add: list_all_update)
  ultimately show "uuid_shape (s[19 := x])"
    unfolding uuid_shape_def using len hex by blast
qed





section \<open>The sample store and calls by another identity\<close>

lemma uuid_shapeI:
  assumes "s = a @ ''-'' @ b @ ''-'' @ c @ ''-'' @ d @ ''-'' @ e"
    "length a = 8" "length b = 4" "length c = 4" "length d = 4" "length e = 12"
    "list_all is_hex_digit (a @ b @ c @ d @ e)"
  shows "uuid_shape s"
  unfolding uuid_shape_def using assms by (intro exI[of _ a] exI[of _ b] exI[of _ c] exI[of _ d] exI[of _ e]) simp

lemma shape_recipe_id_1: "uuid_shape recipe_id_1"
  by (rule uuid_shapeI[of _ "''123e4567''" "''e89b''" "''12d3''" "''a456''" "''426614174000''"])
     (simp_all add: recipe_id_1_def is_hex_digit_def)

lemma shape_owner_id_1: "uuid_shape owner_id_1"
  by (rule uuid_shapeI[of _ "''9b2c1f0e''" "''5a4d''" "''4c3b''" "''8a29''" "''1e0f9d8c7b6a''"])
     (simp_all add: owner_id_1_def is_hex_digit_def)

lemma shape_owner_id_2: "uuid_shape owner_id_2"
  by (rule uuid_shapeI[of _ "''0f1e2d3c''" "''4b5a''" "''4697''" "''a8b9''" "''cadbecfd0e1f''"])
     (simp_all add: owner_id_2_def is_hex_digit_def)

lemma shape_nil_uuid: "uuid_shape nil_uuid"
  by (rule uuid_shapeI[of _ "''00000000''" "''0000''" "''0000''" "''0000''" "''000000000000''"])
     (simp_all add: nil_uuid_def is_hex_digit_def)

lemma valid_ids_A:
  "isValidUUID_A recipe_id_1" "isValidUUID_A owner_id_1" "isValidUUID_A owner_id_2"
  by (simp_all add: isValidUUID_A_shape shape_recipe_id_1 shape_owner_id_1 shape_owner_id_2)

lemma valid_ids_B:
  "isValidUUID_B recipe_id_1" "isValidUUID_B owner_id_1" "isValidUUID_B owner_id_2"
  by (simp_all add: isValidUUID_B_shape shape_recipe_id_1 shape_owner_id_1 shape_owner_id_2)

lemma wf_store_1: "wf_store store_1"
  by (simp add: wf_store_def store_1_def recipe_1_def valid_ids_A)

lemma get_store_1: "storage_get recipe_id_1 store_1 = Some recipe_1"
  by (simp add: store_1_def)

lemma created_store_1:
  "createRecipe_A recipe_id_1 owner_id_1 banitsa [] = (Inr recipe_1, store_1)"
  by (simp add: createRecipe_A_def Let_def banitsa_def recipe_1_def store_1_def)

lemma owner_ids_differ: "owner_id_2 \<noteq> owner_id_1"
  by (simp add: owner_id_1_def owner_id_2_def)

text \<open>
  A call by an identity that is not the stored owner: both revisions of
  \<^verbatim>\<open>updateRecipe\<close> and revision B of \<^verbatim>\<open>deleteRecipe\<close> answer \<open>Unauthorized\<close> and return
  the store as it was. Revision A of \<^verbatim>\<open>deleteRecipe\<close> answers \<open>Unauthorized\<close> and returns
  the store without the record. In revision A an identity that fails the format check is
  turned away before the store is read.
\<close>

lemma unauthorized_updateRecipe_A:
  assumes "storage_get rid s = Some r" "who \<noteq> ownerId r" "isValidUUID_A rid" "isValidUUID_A who"
  shows "updateRecipe_A rid who p s = (Inl Unauthorized, s)"
  using assms by (auto simp: updateRecipe_A_unfold)

lemma unauthorized_updateRecipe_B:
  assumes "storage_get rid s = Some r" "who \<noteq> ownerId r" "isValidUUID_B rid"
  shows "updateRecipe_B rid who p s = (Inl Unauthorized, s)"
  using assms by (auto simp: updateRecipe_B_unfold)

lemma unauthorized_deleteRecipe_B:
  assumes "storage_get rid s = Some r" "who \<noteq> ownerId r" "isValidUUID_B rid"
  shows "deleteRecipe_B rid who s = (Inl Unauthorized, s)"
  using assms by (auto simp: deleteRecipe_B_def)

lemma unauthorized_deleteRecipe_A:
  assumes "storage_get rid s = Some r" "who \<noteq> ownerId r" "isValidUUID_A rid" "isValidUUID_A who"
  shows "deleteRecipe_A rid who s = (Inl Unauthorized, storage_delete rid s)"
    and "storage_get rid (storage_delete rid s) = None"
  using assms by (auto simp: deleteRecipe_A_def storage_remove_def get_delete)

lemma malformed_identity_A:
  assumes "\<not> isValidUUID_A who"
  shows "updateRecipe_A rid who p s = (Inl InvalidId, s)" "deleteRecipe_A rid who s = (Inl InvalidId, s)"
  using assms by (simp_all add: updateRecipe_A_def deleteRecipe_A_def)

lemma overwrite_recipe_1:
  "overwrite new_description recipe_1
     = recipe_1\<lparr>description := ''Filo pastry, eggs, white cheese, yoghurt''\<rparr>"
  by (simp add: overwrite_def new_description_def recipe_1_def)

lemma sample_store_invariants: "wf_store store_1" "owner_ids_valid store_1"
  using wf_store_createRecipe(1)[OF wf_store_empty valid_ids_A(1), of owner_id_1 banitsa]
    owner_ids_valid_revision_A(1)[of "[]" owner_id_1 recipe_id_1 banitsa]
  by (simp_all add: created_store_1 owner_ids_valid_def valid_ids_A)

lemma reject_A:
  "\<not> isValidUUID_A ''not-a-uuid''" "\<not> isValidUUID_A []"
  "\<not> isValidUUID_A ''123e-4567e89b-12d3-a456-426614174000''"
  by code_simp+

lemma reject_B:
  "\<not> isValidUUID_B ''not-a-uuid''" "\<not> isValidUUID_B []"
  "\<not> isValidUUID_B ''123e-4567e89b-12d3-a456-426614174000''"
  by code_simp+

lemma shape_upper: "uuid_shape ''123E4567-E89B-12D3-A456-426614174000''"
  by (rule uuid_shapeI[of _ "''123E4567''" "''E89B''" "''12D3''" "''A456''" "''426614174000''"])
     (simp_all add: is_hex_digit_def)

section \<open>Scans of the stored values\<close>

lemma store_empty_iff: "(\<forall>k. storage_get k s = None) \<longleftrightarrow> s = []"
  by (cases s) (auto simp: get_None_iff)

lemma keys_card:
  assumes "distinct (map fst s)"
  shows "card {k. storage_get k s \<noteq> None} = length s"
proof -
  have "{k. storage_get k s \<noteq> None} = set (map fst s)"
    by (auto simp: get_None_iff)
  then show ?thesis using distinct_card[OF assms] by simp
qed




section \<open>The claims\<close>

text \<open>
  Claim C1. A call of \<^verbatim>\<open>updateRecipe\<close> or \<^verbatim>\<open>deleteRecipe\<close> with an identity that is not
  the stored owner id fails with \<open>Unauthorized\<close> and leaves the stored record in place.
  Revision A of \<^verbatim>\<open>deleteRecipe\<close> does not: it calls \<^verbatim>\<open>recipeStorage.remove\<close> before it
  compares the owner. After \<^verbatim>\<open>createRecipe\<close> has stored \<open>recipe_1\<close> for \<open>owner_id_1\<close>, a
  delete by \<open>owner_id_2\<close> answers \<open>Unauthorized\<close>, the store is empty, and a lookup of the
  id answers \<open>NotFound\<close>. The lemmas \<open>unauthorized_updateRecipe_A\<close>,
  \<open>unauthorized_updateRecipe_B\<close> and \<open>unauthorized_deleteRecipe_B\<close> above show that the
  other three functions keep the store.
\<close>

theorem deleteRecipe_A_removes_before_owner_check:
  "createRecipe_A recipe_id_1 owner_id_1 banitsa [] = (Inr recipe_1, store_1)
   \<and> ownerId recipe_1 \<noteq> owner_id_2
   \<and> deleteRecipe_A recipe_id_1 owner_id_2 store_1 = (Inl Unauthorized, [])
   \<and> getRecipeById_A recipe_id_1 (snd (deleteRecipe_A recipe_id_1 owner_id_2 store_1))
       = Inl NotFound"
proof -
  have "ownerId recipe_1 \<noteq> owner_id_2"
    using owner_ids_differ by (simp add: recipe_1_def)
  moreover from this
  have del: "deleteRecipe_A recipe_id_1 owner_id_2 store_1 = (Inl Unauthorized, [])"
    by (simp add: deleteRecipe_A_def storage_remove_def store_1_def valid_ids_A)
  moreover have "getRecipeById_A recipe_id_1 [] = Inl NotFound"
    by (simp add: getRecipeById_A_def valid_ids_A)
  ultimately show ?thesis using created_store_1 by simp
qed

theorem deleteRecipe_A_removes_before_owner_check_witness:
  "isValidUUID_A recipe_id_1 \<and> isValidUUID_A owner_id_2
   \<and> storage_get recipe_id_1 store_1 = Some recipe_1
   \<and> fst (deleteRecipe_A recipe_id_1 owner_id_2 store_1) = Inl Unauthorized
   \<and> storage_get recipe_id_1 (snd (deleteRecipe_A recipe_id_1 owner_id_2 store_1)) = None"
  using deleteRecipe_A_removes_before_owner_check valid_ids_A get_store_1 by simp

text \<open>
  Claim C2. For a payload with five non-empty fields, \<^verbatim>\<open>createRecipe\<close> followed by
  \<^verbatim>\<open>getRecipeById\<close> with the id of the returned record (in revision B with the requester id
  of the creation) returns that record. The generated id \<open>uuid1\<close> has the format that
  \<^verbatim>\<open>uuidv4()\<close> produces; the store before the call is arbitrary.
\<close>

theorem createRecipe_then_getRecipeById:
  assumes "complete payload" "isValidUUID_A uuid1" "isValidUUID_B uuid1"
  shows "(\<exists>r s'. createRecipe_A uuid1 uuid2 payload s = (Inr r, s')
            \<and> getRecipeById_A (idR r) s' = Inr r)
       \<and> (\<exists>r s'. createRecipe_B uuid1 requesterId payload s = (Inr r, s')
            \<and> getRecipeById_B (idR r) requesterId s' = Inr r)"
  using assms
  by (simp add: complete_def createRecipe_A_def createRecipe_B_def getRecipeById_A_def
      getRecipeById_B_def get_insert_same Let_def)

theorem createRecipe_then_getRecipeById_witness:
  "(\<exists>r s'. createRecipe_A recipe_id_1 owner_id_1 banitsa [] = (Inr r, s')
            \<and> getRecipeById_A (idR r) s' = Inr r)
       \<and> (\<exists>r s'. createRecipe_B recipe_id_1 owner_id_2 banitsa [] = (Inr r, s')
            \<and> getRecipeById_B (idR r) owner_id_2 s' = Inr r)"
proof -
  have c: "complete banitsa" by (simp add: complete_def banitsa_def)
  show ?thesis
    using createRecipe_then_getRecipeById[OF c valid_ids_A(1) valid_ids_B(1), of owner_id_1 "[]" owner_id_2]
    by simp
qed

text \<open>
  Claim C3. \<^verbatim>\<open>updateRecipe\<close> is idempotent: a second call with the same id, identity and
  payload, made on the store that the first call left, returns the same result and the
  same store as the first call. This holds for every store and every argument, so also
  for the calls that fail.
\<close>

theorem updateRecipe_idempotent:
  "updateRecipe_A rid who p (snd (updateRecipe_A rid who p s)) = updateRecipe_A rid who p s
   \<and> updateRecipe_B rid who p (snd (updateRecipe_B rid who p s)) = updateRecipe_B rid who p s"
proof -
  have "updateRecipe_A rid who p (snd (updateRecipe_A rid who p s)) = updateRecipe_A rid who p s"
  proof (cases "storage_get rid s")
    case None
    then show ?thesis by (simp add: updateRecipe_A_unfold)
  next
    case (Some r)
    from update_step_idem[OF Some, of p] obtain r' where
      "storage_get rid (storage_insert (idR r) (overwrite p r) s) = Some r'"
      "ownerId r' = ownerId r" "overwrite p r' = overwrite p r" "idR r' = idR r" by blast
    then show ?thesis using Some by (simp add: updateRecipe_A_unfold insert_idem)
  qed
  moreover
  have "updateRecipe_B rid who p (snd (updateRecipe_B rid who p s)) = updateRecipe_B rid who p s"
  proof (cases "storage_get rid s")
    case None
    then show ?thesis by (simp add: updateRecipe_B_unfold)
  next
    case (Some r)
    from update_step_idem[OF Some, of p] obtain r' where
      "storage_get rid (storage_insert (idR r) (overwrite p r) s) = Some r'"
      "ownerId r' = ownerId r" "overwrite p r' = overwrite p r" "idR r' = idR r" by blast
    then show ?thesis using Some by (simp add: updateRecipe_B_unfold insert_idem)
  qed
  ultimately show ?thesis by simp
qed

theorem updateRecipe_idempotent_witness:
  "updateRecipe_A recipe_id_1 owner_id_1 new_description
      (snd (updateRecipe_A recipe_id_1 owner_id_1 new_description store_1))
   = (Inr (recipe_1\<lparr>description := ''Filo pastry, eggs, white cheese, yoghurt''\<rparr>),
        [(recipe_id_1, recipe_1\<lparr>description := ''Filo pastry, eggs, white cheese, yoghurt''\<rparr>)])
   \<and> updateRecipe_B recipe_id_1 owner_id_1 new_description
      (snd (updateRecipe_B recipe_id_1 owner_id_1 new_description store_1))
   = (Inr (recipe_1\<lparr>description := ''Filo pastry, eggs, white cheese, yoghurt''\<rparr>),
        [(recipe_id_1, recipe_1\<lparr>description := ''Filo pastry, eggs, white cheese, yoghurt''\<rparr>)])"
proof -
  have "updateRecipe_A recipe_id_1 owner_id_1 new_description store_1
     = (Inr (recipe_1\<lparr>description := ''Filo pastry, eggs, white cheese, yoghurt''\<rparr>),
        [(recipe_id_1, recipe_1\<lparr>description := ''Filo pastry, eggs, white cheese, yoghurt''\<rparr>)])"
    by (simp add: updateRecipe_A_unfold valid_ids_A store_1_def recipe_1_def overwrite_def
        new_description_def)
  moreover
  have "updateRecipe_B recipe_id_1 owner_id_1 new_description store_1
     = (Inr (recipe_1\<lparr>description := ''Filo pastry, eggs, white cheese, yoghurt''\<rparr>),
        [(recipe_id_1, recipe_1\<lparr>description := ''Filo pastry, eggs, white cheese, yoghurt''\<rparr>)])"
    by (simp add: updateRecipe_B_unfold valid_ids_B store_1_def recipe_1_def overwrite_def
        new_description_def)
  ultimately show ?thesis
    using updateRecipe_idempotent[of recipe_id_1 owner_id_1 new_description store_1] by simp
qed

text \<open>
  Claim C4. For a record \<open>r\<close> stored under \<open>rid\<close> and the identity of its owner,
  \<^verbatim>\<open>updateRecipe\<close> succeeds; the record it returns is stored under \<open>rid\<close>, the other keys
  keep their records, the id and the owner id are those of \<open>r\<close>, and each of the five other
  fields is the payload's when that is not empty and the one of \<open>r\<close> otherwise. In
  revision A the identity has to pass the format check, which the owner ids generated by
  \<^verbatim>\<open>uuidv4()\<close> do.
\<close>

theorem updateRecipe_success:
  assumes "wf_store s" "storage_get rid s = Some r"
  shows "(isValidUUID_A (ownerId r) \<longrightarrow>
            updateRecipe_A rid (ownerId r) payload s
              = (Inr (overwrite payload r), storage_insert rid (overwrite payload r) s))
       \<and> updateRecipe_B rid (ownerId r) payload s
              = (Inr (overwrite payload r), storage_insert rid (overwrite payload r) s)
       \<and> storage_get rid (storage_insert rid (overwrite payload r) s) = Some (overwrite payload r)
       \<and> (\<forall>k. k \<noteq> rid \<longrightarrow>
              storage_get k (storage_insert rid (overwrite payload r) s) = storage_get k s)
       \<and> idR (overwrite payload r) = idR r
       \<and> ownerId (overwrite payload r) = ownerId r
       \<and> recipeName (overwrite payload r)
           = (if p_recipeName payload = [] then recipeName r else p_recipeName payload)
       \<and> recipeType (overwrite payload r)
           = (if p_recipeType payload = [] then recipeType r else p_recipeType payload)
       \<and> description (overwrite payload r)
           = (if p_description payload = [] then description r else p_description payload)
       \<and> ownerName (overwrite payload r)
           = (if p_ownerName payload = [] then ownerName r else p_ownerName payload)
       \<and> videoDemonstration (overwrite payload r)
           = (if p_videoDemonstration payload = [] then videoDemonstration r
              else p_videoDemonstration payload)"
proof -
  note ids = wf_store_get[OF assms]
  have "isValidUUID_A (ownerId r) \<longrightarrow>
            updateRecipe_A rid (ownerId r) payload s
              = (Inr (overwrite payload r), storage_insert rid (overwrite payload r) s)"
    using assms(2) ids by (simp add: updateRecipe_A_unfold)
  moreover have "updateRecipe_B rid (ownerId r) payload s
              = (Inr (overwrite payload r), storage_insert rid (overwrite payload r) s)"
    using assms(2) ids by (simp add: updateRecipe_B_unfold)
  moreover have "\<forall>k. k \<noteq> rid \<longrightarrow>
              storage_get k (storage_insert rid (overwrite payload r) s) = storage_get k s"
    by (simp add: get_insert_other)
  ultimately show ?thesis
    by (simp add: get_insert_same overwrite_def)
qed

theorem updateRecipe_success_witness:
  "updateRecipe_A recipe_id_1 owner_id_1 new_description store_1
     = (Inr (recipe_1\<lparr>description := ''Filo pastry, eggs, white cheese, yoghurt''\<rparr>),
        [(recipe_id_1, recipe_1\<lparr>description := ''Filo pastry, eggs, white cheese, yoghurt''\<rparr>)])
   \<and> updateRecipe_B recipe_id_1 owner_id_1 new_description store_1
     = (Inr (recipe_1\<lparr>description := ''Filo pastry, eggs, white cheese, yoghurt''\<rparr>),
        [(recipe_id_1, recipe_1\<lparr>description := ''Filo pastry, eggs, white cheese, yoghurt''\<rparr>)])"
proof -
  have o: "ownerId recipe_1 = owner_id_1" by (simp add: recipe_1_def)
  have i: "storage_insert recipe_id_1 x store_1 = [(recipe_id_1, x)]" for x
    by (simp add: store_1_def)
  show ?thesis
    using updateRecipe_success[OF wf_store_1 get_store_1, of new_description] valid_ids_A(2)
    by (simp add: o i overwrite_recipe_1)
qed

text \<open>
  Claim C5. \<^verbatim>\<open>isValidUUID\<close> returns true exactly for the strings of the shape eight hex
  digits, dash, four hex digits, dash, four hex digits, dash, four hex digits, dash,
  twelve hex digits, in either case of the letters. It accepts
  \<^verbatim>\<open>123e4567-e89b-12d3-a456-426614174000\<close> and rejects \<^verbatim>\<open>not-a-uuid\<close>, the empty string
  and a string whose dashes are grouped wrongly.
\<close>

theorem isValidUUID_shape:
  "isValidUUID_A s = uuid_shape s \<and> isValidUUID_B s = uuid_shape s
   \<and> isValidUUID_A ''123e4567-e89b-12d3-a456-426614174000''
   \<and> isValidUUID_B ''123e4567-e89b-12d3-a456-426614174000''
   \<and> isValidUUID_A ''123E4567-E89B-12D3-A456-426614174000''
   \<and> isValidUUID_B ''123E4567-E89B-12D3-A456-426614174000''
   \<and> \<not> isValidUUID_A ''not-a-uuid'' \<and> \<not> isValidUUID_B ''not-a-uuid''
   \<and> \<not> isValidUUID_A [] \<and> \<not> isValidUUID_B []
   \<and> \<not> isValidUUID_A ''123e-4567e89b-12d3-a456-426614174000''
   \<and> \<not> isValidUUID_B ''123e-4567e89b-12d3-a456-426614174000''"
  using shape_recipe_id_1[unfolded recipe_id_1_def] shape_upper reject_A reject_B
  by (simp add: isValidUUID_A_shape isValidUUID_B_shape)



text \<open>
  Claim C7. On a store without records \<^verbatim>\<open>getAllRecipes\<close> returns the error
  \<open>EmptyResult\<close>; on a store with records it returns the stored records, each key's
  record once.
\<close>

theorem getAllRecipes_empty_is_error:
  "((\<forall>k. storage_get k s = None) \<longrightarrow>
       getAllRecipes_A s = Inl EmptyResult \<and> getAllRecipes_B s = Inl EmptyResult)
   \<and> (wf_store s \<and> (\<exists>k. storage_get k s \<noteq> None) \<longrightarrow>
       (\<exists>rs. getAllRecipes_A s = Inr rs \<and> getAllRecipes_B s = Inr rs
          \<and> set rs = {r. \<exists>k. storage_get k s = Some r}
          \<and> length rs = card {k. storage_get k s \<noteq> None}))"
proof (intro conjI impI)
  assume "\<forall>k. storage_get k s = None"
  then have "s = []" by (simp add: store_empty_iff)
  then show "getAllRecipes_A s = Inl EmptyResult" "getAllRecipes_B s = Inl EmptyResult"
    by (simp_all add: getAllRecipes_A_def getAllRecipes_B_def storage_values_def)
next
  assume a: "wf_store s \<and> (\<exists>k. storage_get k s \<noteq> None)"
  then have d: "distinct (map fst s)" by (simp add: wf_store_def)
  from a have "s \<noteq> []" by auto
  then have "getAllRecipes_A s = Inr (storage_values s)" "getAllRecipes_B s = Inr (storage_values s)"
    by (simp_all add: getAllRecipes_A_def getAllRecipes_B_def storage_values_def)
  moreover have "length (storage_values s) = card {k. storage_get k s \<noteq> None}"
    using keys_card[OF d] by (simp add: storage_values_def)
  ultimately show "\<exists>rs. getAllRecipes_A s = Inr rs \<and> getAllRecipes_B s = Inr rs
          \<and> set rs = {r. \<exists>k. storage_get k s = Some r}
          \<and> length rs = card {k. storage_get k s \<noteq> None}"
    using values_set[OF d] by simp
qed

theorem getAllRecipes_empty_is_error_witness:
  "getAllRecipes_A [] = Inl EmptyResult \<and> getAllRecipes_B [] = Inl EmptyResult
   \<and> (\<exists>rs. getAllRecipes_A store_1 = Inr rs \<and> getAllRecipes_B store_1 = Inr rs
          \<and> set rs = {r. \<exists>k. storage_get k store_1 = Some r}
          \<and> length rs = card {k. storage_get k store_1 \<noteq> None})"
proof -
  have "\<exists>k. storage_get k store_1 \<noteq> None" using get_store_1 by auto
  then show ?thesis
    using getAllRecipes_empty_is_error[of "[]"] getAllRecipes_empty_is_error[of store_1] wf_store_1
    by simp
qed



text \<open>
  Claim C9. \<^verbatim>\<open>isValidUUID\<close> does not look at the version and variant positions: it accepts
  the all-zero identifier, whose version digit (index 14) is not 4, and an accepted string stays
  accepted when the character at index 14 (the version) or at index 19 (the variant) is
  replaced by any hex digit.
\<close>

theorem isValidUUID_ignores_version_and_variant:
  "isValidUUID_A ''00000000-0000-0000-0000-000000000000''
   \<and> isValidUUID_B ''00000000-0000-0000-0000-000000000000''
   \<and> ''00000000-0000-0000-0000-000000000000'' ! 14 \<noteq> CHR ''4''
   \<and> (isValidUUID_A s \<and> is_hex_digit c \<longrightarrow>
         isValidUUID_A (s[14 := c]) \<and> isValidUUID_A (s[19 := c]))
   \<and> (isValidUUID_B s \<and> is_hex_digit c \<longrightarrow>
         isValidUUID_B (s[14 := c]) \<and> isValidUUID_B (s[19 := c]))"
  using shape_nil_uuid[unfolded nil_uuid_def] uuid_shape_update[of s c]
  by (simp add: isValidUUID_A_shape isValidUUID_B_shape)

theorem isValidUUID_ignores_version_and_variant_witness:
  "isValidUUID_A ''123e4567-e89b-f2d3-a456-426614174000''
   \<and> isValidUUID_A ''123e4567-e89b-12d3-f456-426614174000''
   \<and> isValidUUID_B ''123e4567-e89b-f2d3-a456-426614174000''
   \<and> isValidUUID_B ''123e4567-e89b-12d3-f456-426614174000''"
proof -
  have h: "is_hex_digit (CHR ''f'')" by (simp add: is_hex_digit_def)
  have u: "''123e4567-e89b-12d3-a456-426614174000''[14 := CHR ''f'']
             = ''123e4567-e89b-f2d3-a456-426614174000''"
          "''123e4567-e89b-12d3-a456-426614174000''[19 := CHR ''f'']
             = ''123e4567-e89b-12d3-f456-426614174000''"
    by code_simp+
  show ?thesis
    using isValidUUID_ignores_version_and_variant
            [of "''123e4567-e89b-12d3-a456-426614174000''" "CHR ''f''"]
      valid_ids_A(1) valid_ids_B(1) h
    unfolding recipe_id_1_def u by simp
qed

text \<open>
  Claim C10. \<^verbatim>\<open>updateRecipe\<close> does not check the payload for completeness: with the
  owner's identity and a payload of five empty strings it succeeds, returns the stored
  record and leaves the store as it was.
\<close>

theorem updateRecipe_empty_payload:
  assumes "wf_store s" "storage_get rid s = Some r"
  shows "(isValidUUID_A (ownerId r) \<longrightarrow>
            updateRecipe_A rid (ownerId r) empty_payload s = (Inr r, s))
       \<and> updateRecipe_B rid (ownerId r) empty_payload s = (Inr r, s)"
proof -
  note ids = wf_store_get[OF assms]
  have "overwrite empty_payload r = r" by (simp add: overwrite_def empty_payload_def)
  then show ?thesis
    using assms(2) ids by (simp add: updateRecipe_A_unfold updateRecipe_B_unfold insert_triv)
qed

theorem updateRecipe_empty_payload_witness:
  "updateRecipe_A recipe_id_1 owner_id_1 empty_payload store_1 = (Inr recipe_1, store_1)
   \<and> updateRecipe_B recipe_id_1 owner_id_1 empty_payload store_1 = (Inr recipe_1, store_1)"
proof -
  have o: "ownerId recipe_1 = owner_id_1" by (simp add: recipe_1_def)
  show ?thesis
    using updateRecipe_empty_payload[OF wf_store_1 get_store_1] valid_ids_A(2)
    by (simp add: o)
qed

end
